theory Spec2Isabelle
  imports Main
begin

section \<open>The rule \<open>okta_group_name_prefix\<close> of rules/okta_group_naming_convention.go\<close>

text \<open>
  The rule is one Go type with a constructor, three accessors and the method
  \<open>Check\<close>. \<open>Check\<close> talks to the linter's host through the interface
  \<open>tflint.Runner\<close>, of which it uses three methods: \<open>GetResourceContent\<close>,
  \<open>EvaluateExpr\<close> and \<open>EmitIssue\<close>. The host is not part of the repository, so
  it is a parameter of the model: a machine with a state of an arbitrary type \<open>'s\<close>
  that answers each of the three calls and moves to a next state. Host errors are the
  values of an arbitrary type \<open>'e\<close>; a Go \<open>error\<close> result is an \<open>'e option\<close>,
  \<open>None\<close> for \<open>nil\<close>. Expressions (\<open>hcl.Expression\<close>) and source ranges
  (\<open>hcl.Range\<close>) are opaque to the rule: the types \<open>'x\<close> and \<open>'r\<close>.
  Go strings are byte sequences, as \<open>string\<close> is here.
\<close>

subsection \<open>The rule and its accessors\<close>

datatype Severity = ERROR | WARNING | NOTICE

text \<open>
  The struct \<open>OktaGroupNamePrefixRule\<close>. The embedded \<open>tflint.DefaultRule\<close> has no
  fields.
\<close>

record OktaGroupNamePrefixRule =
  resourceType :: string
  attributeName :: string
  prefix :: string

definition NewOktaGroupNamePrefixRule :: OktaGroupNamePrefixRule where
  "NewOktaGroupNamePrefixRule =
     \<lparr>resourceType = ''okta_group'', attributeName = ''name'', prefix = ''terraform-''\<rparr>"

definition Name :: "OktaGroupNamePrefixRule \<Rightarrow> string" where
  "Name r = ''okta_group_name_prefix''"

definition Enabled :: "OktaGroupNamePrefixRule \<Rightarrow> bool" where
  "Enabled r = True"

definition Severity :: "OktaGroupNamePrefixRule \<Rightarrow> Severity" where
  "Severity r = ERROR"

subsection \<open>Strings\<close>

text \<open>
  \<open>strings.HasPrefix(s, prefix)\<close> is
  \<open>len(s) >= len(prefix) && s[:len(prefix)] == prefix\<close>, on bytes.
\<close>

definition HasPrefix :: "string \<Rightarrow> string \<Rightarrow> bool" where
  "HasPrefix s p = (length p \<le> length s \<and> take (length p) s = p)"

text \<open>
  The two \<open>fmt.Sprintf\<close> calls of \<open>Check\<close>, each with one \<open>%s\<close>:
  \<open>"checking %s rule"\<close> and \<open>"Okta group name must start with '%s'"\<close>.
  \<open>CHR 0x27\<close> is the apostrophe.
\<close>

definition debugMsg :: "string \<Rightarrow> string" where
  "debugMsg n = ''checking '' @ n @ '' rule''"

definition issueMsg :: "string \<Rightarrow> string" where
  "issueMsg p = ''Okta group name must start with '' @ [CHR 0x27] @ p @ [CHR 0x27]"

subsection \<open>What the host hands to the rule\<close>

text \<open>
  \<open>hclext.Attribute\<close> (the fields \<open>Check\<close> reads: \<open>Expr\<close> and \<open>Range\<close>), the body
  of a resource block with its \<open>Attributes\<close> map, a block, and the content that
  \<open>GetResourceContent\<close> returns, of which \<open>Check\<close> reads \<open>Blocks\<close>. The field
  \<open>Range\<close> is \<open>Range_hcl\<close> here, since \<open>Range\<close> is the range of a relation in HOL.
  A Go map lookup \<open>m[k]\<close> with two results is the lookup of a partial map: \<open>None\<close>
  when \<open>exists\<close> is false.
\<close>

record ('x, 'r) Attribute =
  Expr :: 'x
  Range_hcl :: 'r

record ('x, 'r) BlockBody =
  Attributes :: "string \<rightharpoonup> ('x, 'r) Attribute"

record ('x, 'r) Block =
  Body :: "('x, 'r) BlockBody"

record ('x, 'r) BodyContent =
  Blocks :: "('x, 'r) Block list"

subsection \<open>The host\<close>

text \<open>
  What the host decides about one expression evaluated with a callback that takes a
  string: it resolves the expression and calls the callback with the value, or it
  skips the callback and reports success (an unknown, null or sensitive value), or it
  fails with an error of its own.
\<close>

datatype 'e Evaluation = Resolved string | Skipped | EvalFailed 'e

record ('s, 'e, 'x, 'r) Runner =
  hostGetResourceContent ::
    "string \<Rightarrow> string list \<Rightarrow> 's \<Rightarrow> ('e + ('x, 'r) BodyContent) \<times> 's"
  hostEvaluate :: "'x \<Rightarrow> 's \<Rightarrow> 'e Evaluation \<times> 's"
  hostEmitIssue :: "OktaGroupNamePrefixRule \<Rightarrow> string \<Rightarrow> 'r \<Rightarrow> 's \<Rightarrow> 'e option \<times> 's"

text \<open>
  Every effect of \<open>Check\<close> is a call: to the logger or to the host. The model records
  them in order. \<open>GetResourceContentCall t as\<close> is the query for the blocks of
  resource type \<open>t\<close> with a body schema of the attributes named \<open>as\<close>;
  \<open>EmitIssueCall r m g\<close> is the issue of rule \<open>r\<close> with message \<open>m\<close> at range \<open>g\<close>.
\<close>

datatype ('x, 'r) Call =
    LoggerDebug string
  | GetResourceContentCall string "string list"
  | EvaluateExprCall 'x
  | EmitIssueCall OktaGroupNamePrefixRule string 'r

text \<open>
  The state \<open>Check\<close> runs in: the receiver \<open>*r\<close> (a pointer receiver could be
  written through), the host's state, and the calls made so far.
\<close>

record ('s, 'x, 'r) State =
  self :: OktaGroupNamePrefixRule
  host :: 's
  calls :: "('x, 'r) Call list"

text \<open>
  The three methods of the runner as \<open>Check\<close> calls them. Each passes the call to
  the host, takes the host's next state and records the call. The last argument of
  \<open>GetResourceContent\<close> and of \<open>EvaluateExpr\<close> (the options) is \<open>nil\<close> in the
  source and is left out. \<open>EvaluateExpr\<close> takes a callback: the callback runs, after
  the host has resolved the expression, on the resolved string, and its result is the
  result of the call.
\<close>

definition Debug :: "string \<Rightarrow> ('s, 'x, 'r) State \<Rightarrow> ('s, 'x, 'r) State" where
  "Debug m st = st\<lparr>calls := calls st @ [LoggerDebug m]\<rparr>"

definition GetResourceContent ::
  "('s, 'e, 'x, 'r) Runner \<Rightarrow> string \<Rightarrow> string list \<Rightarrow> ('s, 'x, 'r) State
     \<Rightarrow> ('e + ('x, 'r) BodyContent) \<times> ('s, 'x, 'r) State" where
  "GetResourceContent runner t as st =
     (case hostGetResourceContent runner t as (host st) of
        (res, h) \<Rightarrow> (res, st\<lparr>host := h, calls := calls st @ [GetResourceContentCall t as]\<rparr>))"

definition EmitIssue ::
  "('s, 'e, 'x, 'r) Runner \<Rightarrow> OktaGroupNamePrefixRule \<Rightarrow> string \<Rightarrow> 'r \<Rightarrow> ('s, 'x, 'r) State
     \<Rightarrow> 'e option \<times> ('s, 'x, 'r) State" where
  "EmitIssue runner r m g st =
     (case hostEmitIssue runner r m g (host st) of
        (res, h) \<Rightarrow> (res, st\<lparr>host := h, calls := calls st @ [EmitIssueCall r m g]\<rparr>))"

definition EvaluateExpr ::
  "('s, 'e, 'x, 'r) Runner \<Rightarrow> 'x
     \<Rightarrow> (string \<Rightarrow> ('s, 'x, 'r) State \<Rightarrow> 'e option \<times> ('s, 'x, 'r) State)
     \<Rightarrow> ('s, 'x, 'r) State \<Rightarrow> 'e option \<times> ('s, 'x, 'r) State" where
  "EvaluateExpr runner e callback st =
     (case hostEvaluate runner e (host st) of
        (ev, h) \<Rightarrow>
          (let st' = st\<lparr>host := h, calls := calls st @ [EvaluateExprCall e]\<rparr> in
           case ev of
             Resolved v \<Rightarrow> callback v st'
           | Skipped \<Rightarrow> (None, st')
           | EvalFailed err \<Rightarrow> (Some err, st')))"

subsection \<open>Check\<close>

text \<open>
  The function literal that \<open>Check\<close> passes to \<open>EvaluateExpr\<close> (steps 4 and 5 of the
  source), closed over the runner, the receiver and the attribute. The variable
  \<open>err\<close> it assigns is the one declared with the query (the \<open>err\<close> of the loop body
  is in scope only after its own declaration); it is \<open>nil\<close> when the loop runs and is
  not read after the literal returns, so the literal's result is all that is kept.
\<close>

definition checkGroupName ::
  "('s, 'e, 'x, 'r) Runner \<Rightarrow> ('x, 'r) Attribute \<Rightarrow> string \<Rightarrow> ('s, 'x, 'r) State
     \<Rightarrow> 'e option \<times> ('s, 'x, 'r) State" where
  "checkGroupName runner attribute groupName st =
     (if \<not> HasPrefix groupName (prefix (self st)) then
        (case EmitIssue runner (self st) (issueMsg (prefix (self st))) (Range_hcl attribute) st of
           (Some err, st') \<Rightarrow> (Some err, st')
         | (None, st') \<Rightarrow> (None, st'))
      else (None, st))"

text \<open>The \<open>for\<close> loop over \<open>resources.Blocks\<close> (steps 2 and 3).\<close>

fun CheckBlocks ::
  "('s, 'e, 'x, 'r) Runner \<Rightarrow> ('x, 'r) Block list \<Rightarrow> ('s, 'x, 'r) State
     \<Rightarrow> 'e option \<times> ('s, 'x, 'r) State" where
  "CheckBlocks runner [] st = (None, st)"
| "CheckBlocks runner (resource # rest) st =
     (case Attributes (Body resource) (attributeName (self st)) of
        None \<Rightarrow> CheckBlocks runner rest st
      | Some attribute \<Rightarrow>
          (case EvaluateExpr runner (Expr attribute) (checkGroupName runner attribute) st of
             (Some err, st') \<Rightarrow> (Some err, st')
           | (None, st') \<Rightarrow> CheckBlocks runner rest st'))"

definition Check ::
  "('s, 'e, 'x, 'r) Runner \<Rightarrow> ('s, 'x, 'r) State \<Rightarrow> 'e option \<times> ('s, 'x, 'r) State" where
  "Check runner st =
     (let st0 = Debug (debugMsg (Name (self st))) st in
      case GetResourceContent runner (resourceType (self st0)) [attributeName (self st0)] st0 of
        (Inl err, st1) \<Rightarrow> (Some err, st1)
      | (Inr resources, st1) \<Rightarrow> CheckBlocks runner (Blocks resources) st1)"

subsection \<open>What a run is observed by\<close>

text \<open>
  The calls one run of \<open>Check\<close> adds to those made before it, and the issues among a
  list of calls: rule, message and range of every \<open>EmitIssue\<close>, in order.
\<close>

definition newCalls :: "('s, 'e, 'x, 'r) Runner \<Rightarrow> ('s, 'x, 'r) State \<Rightarrow> ('x, 'r) Call list" where
  "newCalls runner st = drop (length (calls st)) (calls (snd (Check runner st)))"

fun issueOf :: "('x, 'r) Call \<Rightarrow> (OktaGroupNamePrefixRule \<times> string \<times> 'r) option" where
  "issueOf (EmitIssueCall r m g) = Some (r, m, g)"
| "issueOf c = None"

definition issues :: "('x, 'r) Call list \<Rightarrow> (OktaGroupNamePrefixRule \<times> string \<times> 'r) list" where
  "issues cs = List.map_filter issueOf cs"

text \<open>
  The state in which \<open>Check\<close> enters its loop: the line of the debug log and the
  query are recorded, and the host has moved to \<open>h\<close> in answering the query.
\<close>

definition queried :: "('s, 'x, 'r) State \<Rightarrow> 's \<Rightarrow> ('s, 'x, 'r) State" where
  "queried st h =
     st\<lparr>host := h,
        calls := calls st @ [LoggerDebug (debugMsg (Name (self st))),
          GetResourceContentCall (resourceType (self st)) [attributeName (self st)]]\<rparr>"

text \<open>
  A host with fixed responses: what it answers to a call does not depend on the state
  it is in (the state it moves to may).
\<close>

definition fixedResponses :: "('s, 'e, 'x, 'r) Runner \<Rightarrow> bool" where
  "fixedResponses runner =
     ((\<forall>t as s s'. fst (hostGetResourceContent runner t as s) = fst (hostGetResourceContent runner t as s'))
    \<and> (\<forall>e s s'. fst (hostEvaluate runner e s) = fst (hostEvaluate runner e s'))
    \<and> (\<forall>r m g s s'. fst (hostEmitIssue runner r m g s) = fst (hostEmitIssue runner r m g s')))"

subsection \<open>A host for concrete runs\<close>

text \<open>
  A host whose expressions are their own evaluations, whose ranges are line numbers
  and whose state counts the issues it was handed. It answers the query for
  \<open>okta_group\<close> blocks with the attribute \<open>name\<close> by \<open>answer\<close> and accepts or
  refuses an issue by \<open>emission\<close> of its count. \<open>namedGroup e g\<close> is a block whose
  \<open>name\<close> is the expression \<open>e\<close> at range \<open>g\<close>; \<open>unnamedGroup\<close> has no
  \<open>name\<close>. \<open>start\<close> is the rule as constructed, before any call.
\<close>

definition namedGroup :: "'x \<Rightarrow> 'r \<Rightarrow> ('x, 'r) Block" where
  "namedGroup e g = \<lparr>Body = \<lparr>Attributes = [''name'' \<mapsto> \<lparr>Expr = e, Range_hcl = g\<rparr>]\<rparr>\<rparr>"

definition unnamedGroup :: "('x, 'r) Block" where
  "unnamedGroup = \<lparr>Body = \<lparr>Attributes = Map.empty\<rparr>\<rparr>"

definition scenarioRunner ::
  "(string + (string Evaluation, nat) BodyContent) \<Rightarrow> (nat \<Rightarrow> string option)
     \<Rightarrow> (nat, string, string Evaluation, nat) Runner" where
  "scenarioRunner answer emission =
     \<lparr>hostGetResourceContent =
        (\<lambda>t as s. if t = ''okta_group'' \<and> as = [''name''] then (answer, s)
                  else (Inl ''unsupported query'', s)),
      hostEvaluate = (\<lambda>e s. (e, s)),
      hostEmitIssue = (\<lambda>r m g s. (emission s, Suc s))\<rparr>"

text \<open>The emission of a host that accepts every issue.\<close>

definition accepting :: "nat \<Rightarrow> string option" where
  "accepting n = None"

definition start :: "(nat, string Evaluation, nat) State" where
  "start = \<lparr>self = NewOktaGroupNamePrefixRule, host = 0, calls = []\<rparr>"

section \<open>Single steps\<close>

lemmas scenario_defs =
  scenarioRunner_def start_def namedGroup_def unnamedGroup_def NewOktaGroupNamePrefixRule_def
  queried_def Name_def debugMsg_def issueMsg_def HasPrefix_def

lemmas run_defs =
  Check_def Debug_def GetResourceContent_def EvaluateExpr_def checkGroupName_def EmitIssue_def

lemma Check_answered:
  "hostGetResourceContent runner (resourceType (self st)) [attributeName (self st)] (host st)
     = (Inr resources, h) \<Longrightarrow>
   Check runner st = CheckBlocks runner (Blocks resources) (queried st h)"
  by (simp add: Check_def Debug_def GetResourceContent_def queried_def)

lemma Check_refused:
  "hostGetResourceContent runner (resourceType (self st)) [attributeName (self st)] (host st)
     = (Inl err, h) \<Longrightarrow>
   Check runner st = (Some err, queried st h)"
  by (simp add: Check_def Debug_def GetResourceContent_def queried_def)

lemma evaluate_failed:
  "hostEvaluate runner e (host st) = (EvalFailed err, h) \<Longrightarrow>
   EvaluateExpr runner e callback st =
     (Some err, st\<lparr>host := h, calls := calls st @ [EvaluateExprCall e]\<rparr>)"
  by (simp add: EvaluateExpr_def)

lemma evaluate_skipped:
  "hostEvaluate runner e (host st) = (Skipped, h) \<Longrightarrow>
   EvaluateExpr runner e callback st =
     (None, st\<lparr>host := h, calls := calls st @ [EvaluateExprCall e]\<rparr>)"
  by (simp add: EvaluateExpr_def)

lemma evaluate_resolved:
  "hostEvaluate runner e (host st) = (Resolved v, h) \<Longrightarrow>
   EvaluateExpr runner e callback st =
     callback v (st\<lparr>host := h, calls := calls st @ [EvaluateExprCall e]\<rparr>)"
  by (simp add: EvaluateExpr_def)

lemma checkGroupName_with_prefix:
  "HasPrefix v (prefix (self st)) \<Longrightarrow> checkGroupName runner a v st = (None, st)"
  by (simp add: checkGroupName_def)

lemma checkGroupName_without_prefix:
  "\<not> HasPrefix v (prefix (self st)) \<Longrightarrow>
   hostEmitIssue runner (self st) (issueMsg (prefix (self st))) (Range_hcl a) (host st) = (res, h) \<Longrightarrow>
   checkGroupName runner a v st =
     (res, st\<lparr>host := h,
        calls := calls st @ [EmitIssueCall (self st) (issueMsg (prefix (self st))) (Range_hcl a)]\<rparr>)"
  by (cases res) (simp_all add: checkGroupName_def EmitIssue_def)

lemma self_checkGroupName: "self (snd (checkGroupName runner a v st)) = self st"
  by (simp add: checkGroupName_def EmitIssue_def split: prod.splits option.splits)

lemma self_EvaluateExpr:
  "self (snd (EvaluateExpr runner e (checkGroupName runner a) st)) = self st"
  by (simp add: EvaluateExpr_def Let_def self_checkGroupName split: prod.splits Evaluation.splits)

lemma self_CheckBlocks: "self (snd (CheckBlocks runner bs st)) = self st"
proof (induction bs arbitrary: st)
  case Nil
  show ?case by simp
next
  case (Cons b bs)
  show ?case
  proof (cases "Attributes (Body b) (attributeName (self st))")
    case None
    then show ?thesis using Cons.IH by simp
  next
    case (Some a)
    obtain r st' where ev: "EvaluateExpr runner (Expr a) (checkGroupName runner a) st = (r, st')"
      by (cases "EvaluateExpr runner (Expr a) (checkGroupName runner a) st")
    have "self st' = self st" using self_EvaluateExpr [of runner "Expr a" a st] ev by simp
    then show ?thesis using Some ev Cons.IH [of st'] by (cases r) simp_all
  qed
qed

lemma self_Check: "self (snd (Check runner st)) = self st"
  by (simp add: Check_def Debug_def GetResourceContent_def Let_def self_CheckBlocks
      split: prod.splits sum.splits)

lemma CheckBlocks_append:
  "CheckBlocks runner (bs @ cs) st =
     (case CheckBlocks runner bs st of
        (Some err, st') \<Rightarrow> (Some err, st')
      | (None, st') \<Rightarrow> CheckBlocks runner cs st')"
  by (induction bs arbitrary: st) (simp_all split: option.splits prod.splits)

section \<open>The calls of a run\<close>

lemma calls_EvaluateExpr:
  "\<exists>cs. calls (snd (EvaluateExpr runner e (checkGroupName runner a) st)) = calls st @ cs
     \<and> issues cs = (case fst (hostEvaluate runner e (host st)) of
          Resolved v \<Rightarrow> if HasPrefix v (prefix (self st)) then []
             else [(self st, issueMsg (prefix (self st)), Range_hcl a)]
        | _ \<Rightarrow> [])"
  by (auto simp: EvaluateExpr_def checkGroupName_def EmitIssue_def Let_def issues_def
      split: prod.splits Evaluation.splits option.splits)

lemma HasPrefix_empty: "HasPrefix v []"
  by (simp add: HasPrefix_def)

lemma HasPrefix_iff: "HasPrefix s p \<longleftrightarrow> (\<exists>t. s = p @ t)"
proof
  assume "HasPrefix s p"
  then have "s = p @ drop (length p) s"
    by (metis HasPrefix_def append_take_drop_id)
  then show "\<exists>t. s = p @ t" ..
next
  assume "\<exists>t. s = p @ t"
  then show "HasPrefix s p" by (auto simp: HasPrefix_def)
qed

lemma issues_append: "issues (cs @ ds) = issues cs @ issues ds"
  by (simp add: issues_def List.map_filter_def)

lemma calls_CheckBlocks:
  "\<exists>cs. calls (snd (CheckBlocks runner bs st)) = calls st @ cs
     \<and> (\<forall>i \<in> set (issues cs). fst i = self st \<and> fst (snd i) = issueMsg (prefix (self st)))
     \<and> (prefix (self st) = [] \<longrightarrow> issues cs = [])"
proof (induction bs arbitrary: st)
  case Nil
  show ?case by (simp add: issues_def)
next
  case (Cons b bs)
  show ?case
  proof (cases "Attributes (Body b) (attributeName (self st))")
    case None
    then show ?thesis using Cons.IH [of st] by simp
  next
    case (Some a)
    obtain r st' where ev: "EvaluateExpr runner (Expr a) (checkGroupName runner a) st = (r, st')"
      by (cases "EvaluateExpr runner (Expr a) (checkGroupName runner a) st")
    have self': "self st' = self st"
      using self_EvaluateExpr [of runner "Expr a" a st] ev by simp
    obtain cs where cs: "calls st' = calls st @ cs"
      and ics: "issues cs = (case fst (hostEvaluate runner (Expr a) (host st)) of
          Resolved v \<Rightarrow> if HasPrefix v (prefix (self st)) then []
             else [(self st, issueMsg (prefix (self st)), Range_hcl a)]
        | _ \<Rightarrow> [])"
      using calls_EvaluateExpr [of runner "Expr a" a st] ev by auto
    have one: "\<forall>i \<in> set (issues cs). fst i = self st \<and> fst (snd i) = issueMsg (prefix (self st))"
      using ics by (auto split: Evaluation.splits if_splits)
    have none: "prefix (self st) = [] \<longrightarrow> issues cs = []"
      using ics by (auto simp: HasPrefix_empty split: Evaluation.splits)
    show ?thesis
    proof (cases r)
      case (Some err)
      then have "CheckBlocks runner (b # bs) st = (Some err, st')"
        using \<open>Attributes (Body b) (attributeName (self st)) = Some a\<close> ev by simp
      then show ?thesis using cs one none by auto
    next
      case None
      then have run: "CheckBlocks runner (b # bs) st = CheckBlocks runner bs st'"
        using \<open>Attributes (Body b) (attributeName (self st)) = Some a\<close> ev by simp
      obtain ds where ds: "calls (snd (CheckBlocks runner bs st')) = calls st' @ ds"
        and d1: "\<forall>i \<in> set (issues ds). fst i = self st' \<and> fst (snd i) = issueMsg (prefix (self st'))"
        and d0: "prefix (self st') = [] \<longrightarrow> issues ds = []"
        using Cons.IH [of st'] by blast
      have "calls (snd (CheckBlocks runner (b # bs) st)) = calls st @ (cs @ ds)"
        using run ds cs by simp
      moreover have "\<forall>i \<in> set (issues (cs @ ds)). fst i = self st \<and> fst (snd i) = issueMsg (prefix (self st))"
        using one d1 self' by (auto simp: issues_append)
      moreover have "prefix (self st) = [] \<longrightarrow> issues (cs @ ds) = []"
        using none d0 self' by (simp add: issues_append)
      ultimately show ?thesis by blast
    qed
  qed
qed

lemma calls_Check:
  "\<exists>cs. calls (snd (Check runner st)) = calls st @ cs
     \<and> (\<forall>i \<in> set (issues cs). fst i = self st \<and> fst (snd i) = issueMsg (prefix (self st)))
     \<and> (prefix (self st) = [] \<longrightarrow> issues cs = [])"
proof (cases "hostGetResourceContent runner (resourceType (self st)) [attributeName (self st)] (host st)")
  case (Pair res h)
  let ?q = "[LoggerDebug (debugMsg (Name (self st))),
          GetResourceContentCall (resourceType (self st)) [attributeName (self st)]]"
  have iq: "issues ?q = []" by (simp add: issues_def)
  show ?thesis
  proof (cases res)
    case (Inl err)
    then have "Check runner st = (Some err, queried st h)"
      using Pair Check_refused by metis
    then have "calls (snd (Check runner st)) = calls st @ ?q" by (simp add: queried_def)
    then show ?thesis using iq by (metis empty_iff empty_set)
  next
    case (Inr resources)
    then have run: "Check runner st = CheckBlocks runner (Blocks resources) (queried st h)"
      using Pair Check_answered by metis
    have sq: "self (queried st h) = self st" by (simp add: queried_def)
    obtain ds where ds: "calls (snd (CheckBlocks runner (Blocks resources) (queried st h))) = calls (queried st h) @ ds"
        and d1: "\<forall>i \<in> set (issues ds). fst i = self st \<and> fst (snd i) = issueMsg (prefix (self st))"
        and d0: "prefix (self st) = [] \<longrightarrow> issues ds = []"
      using calls_CheckBlocks [of runner "Blocks resources" "queried st h"] sq by auto
    have "calls (snd (Check runner st)) = calls st @ (?q @ ds)"
      using run ds by (simp add: queried_def)
    moreover have "issues (?q @ ds) = issues ds"
      using iq by (simp only: issues_append) simp
    ultimately show ?thesis using d1 d0 by metis
  qed
qed

lemma newCalls_Check: "calls (snd (Check runner st)) = calls st @ newCalls runner st"
  using calls_Check [of runner st] by (auto simp: newCalls_def)

section \<open>Hosts with fixed responses\<close>

lemma fixed_EvaluateExpr:
  assumes fixed: "fixedResponses runner" and same: "self st' = self st"
  shows "\<exists>cs. fst (EvaluateExpr runner e (checkGroupName runner a) st')
           = fst (EvaluateExpr runner e (checkGroupName runner a) st)
     \<and> calls (snd (EvaluateExpr runner e (checkGroupName runner a) st)) = calls st @ cs
     \<and> calls (snd (EvaluateExpr runner e (checkGroupName runner a) st')) = calls st' @ cs"
proof -
  obtain ev h where ev: "hostEvaluate runner e (host st) = (ev, h)"
    by (cases "hostEvaluate runner e (host st)")
  obtain ev' h' where ev': "hostEvaluate runner e (host st') = (ev', h')"
    by (cases "hostEvaluate runner e (host st')")
  have "fst (hostEvaluate runner e (host st')) = fst (hostEvaluate runner e (host st))"
    using fixed by (simp add: fixedResponses_def)
  then have evs: "ev' = ev" using ev ev' by simp
  let ?m = "issueMsg (prefix (self st))"
  obtain res k where em: "hostEmitIssue runner (self st) ?m (Range_hcl a) h = (res, k)"
    by (cases "hostEmitIssue runner (self st) ?m (Range_hcl a) h")
  obtain res' k' where em': "hostEmitIssue runner (self st) ?m (Range_hcl a) h' = (res', k')"
    by (cases "hostEmitIssue runner (self st) ?m (Range_hcl a) h'")
  have "fst (hostEmitIssue runner (self st) ?m (Range_hcl a) h')
      = fst (hostEmitIssue runner (self st) ?m (Range_hcl a) h)"
    using fixed by (simp add: fixedResponses_def)
  then have ress: "res' = res" using em em' by simp
  show ?thesis
  proof (cases ev)
    case Skipped
    then show ?thesis using ev ev' evs by (simp add: evaluate_skipped)
  next
    case (EvalFailed err)
    then show ?thesis using ev ev' evs by (simp add: evaluate_failed)
  next
    case (Resolved v)
    show ?thesis
    proof (cases "HasPrefix v (prefix (self st))")
      case True
      then show ?thesis using Resolved ev ev' evs same
        by (simp add: evaluate_resolved checkGroupName_with_prefix)
    next
      case False
      then show ?thesis using Resolved ev ev' evs same em em' ress
        by (simp add: evaluate_resolved checkGroupName_without_prefix)
    qed
  qed
qed

lemma fixed_CheckBlocks:
  assumes fixed: "fixedResponses runner"
  shows "self st' = self st \<Longrightarrow>
    \<exists>cs. fst (CheckBlocks runner bs st') = fst (CheckBlocks runner bs st)
     \<and> calls (snd (CheckBlocks runner bs st)) = calls st @ cs
     \<and> calls (snd (CheckBlocks runner bs st')) = calls st' @ cs"
proof (induction bs arbitrary: st st')
  case Nil
  show ?case by simp
next
  case (Cons b bs)
  show ?case
  proof (cases "Attributes (Body b) (attributeName (self st))")
    case None
    then show ?thesis using Cons.IH [OF Cons.prems] Cons.prems by simp
  next
    case (Some a)
    obtain r t where ev: "EvaluateExpr runner (Expr a) (checkGroupName runner a) st = (r, t)"
      by (cases "EvaluateExpr runner (Expr a) (checkGroupName runner a) st")
    obtain r' t' where ev': "EvaluateExpr runner (Expr a) (checkGroupName runner a) st' = (r', t')"
      by (cases "EvaluateExpr runner (Expr a) (checkGroupName runner a) st'")
    obtain cs where rr: "r' = r" and c: "calls t = calls st @ cs" and c': "calls t' = calls st' @ cs"
      using fixed_EvaluateExpr [OF fixed Cons.prems, of "Expr a" a] ev ev' by auto
    have "self t = self st" using self_EvaluateExpr [of runner "Expr a" a st] ev by simp
    moreover have "self t' = self st'" using self_EvaluateExpr [of runner "Expr a" a st'] ev' by simp
    ultimately have tt: "self t' = self t" using Cons.prems by simp
    show ?thesis
    proof (cases r)
      case (Some err)
      then show ?thesis using \<open>Attributes (Body b) (attributeName (self st)) = Some a\<close>
          Cons.prems ev ev' rr c c' by simp
    next
      case None
      obtain ds where "fst (CheckBlocks runner bs t') = fst (CheckBlocks runner bs t)"
        and "calls (snd (CheckBlocks runner bs t)) = calls t @ ds"
        and "calls (snd (CheckBlocks runner bs t')) = calls t' @ ds"
        using Cons.IH [OF tt] by blast
      then show ?thesis using None \<open>Attributes (Body b) (attributeName (self st)) = Some a\<close>
          Cons.prems ev ev' rr c c' by simp
    qed
  qed
qed

lemma fixed_Check:
  assumes fixed: "fixedResponses runner" and same: "self st' = self st"
  shows "fst (Check runner st') = fst (Check runner st) \<and> newCalls runner st' = newCalls runner st"
proof -
  let ?t = "resourceType (self st)" and ?as = "[attributeName (self st)]"
  obtain res h where q: "hostGetResourceContent runner ?t ?as (host st) = (res, h)"
    by (cases "hostGetResourceContent runner ?t ?as (host st)")
  obtain res' h' where q': "hostGetResourceContent runner ?t ?as (host st') = (res', h')"
    by (cases "hostGetResourceContent runner ?t ?as (host st')")
  have "fst (hostGetResourceContent runner ?t ?as (host st'))
      = fst (hostGetResourceContent runner ?t ?as (host st))"
    using fixed by (simp add: fixedResponses_def)
  then have rr: "res' = res" using q q' by simp
  let ?q = "[LoggerDebug (debugMsg (Name (self st))), GetResourceContentCall ?t ?as]"
  have "fst (Check runner st') = fst (Check runner st)
     \<and> (\<exists>cs. calls (snd (Check runner st)) = calls st @ cs
            \<and> calls (snd (Check runner st')) = calls st' @ cs)"
  proof (cases res)
    case (Inl err)
    then have "Check runner st = (Some err, queried st h)"
      and "Check runner st' = (Some err, queried st' h')"
      using q q' rr same by (simp_all add: Check_refused)
    then show ?thesis using same by (simp add: queried_def Name_def)
  next
    case (Inr resources)
    then have run: "Check runner st = CheckBlocks runner (Blocks resources) (queried st h)"
      and run': "Check runner st' = CheckBlocks runner (Blocks resources) (queried st' h')"
      using q q' rr same by (simp_all add: Check_answered)
    have "self (queried st' h') = self (queried st h)" using same by (simp add: queried_def)
    then obtain ds where
      "fst (CheckBlocks runner (Blocks resources) (queried st' h'))
         = fst (CheckBlocks runner (Blocks resources) (queried st h))"
      and "calls (snd (CheckBlocks runner (Blocks resources) (queried st h))) = calls (queried st h) @ ds"
      and "calls (snd (CheckBlocks runner (Blocks resources) (queried st' h'))) = calls (queried st' h') @ ds"
      using fixed_CheckBlocks [OF fixed] by blast
    then show ?thesis using run run' same by (simp add: queried_def Name_def)
  qed
  then show ?thesis by (auto simp: newCalls_def)
qed

section \<open>The properties of the rule\<close>

text \<open>
  C1 as worded fails. "For every block \<open>Check\<close> emits exactly one issue" holds of the
  blocks the pass reaches, not of every block: \<open>Check\<close> returns at the first error of
  the host, and a block behind that error gets no issue although its name lacks the
  prefix. In the run below the host fails to evaluate the name of the second of three
  blocks. The third block has the attribute, the host resolves its expression to
  \<open>ops\<close> in both states it is in during the run, \<open>ops\<close> does not start with
  \<open>terraform-\<close>, and the run emits no issue at the third block's range 9.
\<close>

theorem Check_emits_one_issue_without_prefix_counterexample:
  "Attributes (Body (namedGroup (Resolved ''ops'') (9::nat)
       :: (string Evaluation, nat) Block)) (attributeName (self start))
     = Some \<lparr>Expr = Resolved ''ops'', Range_hcl = 9\<rparr>
   \<and> hostEvaluate (scenarioRunner (Inr \<lparr>Blocks =
       [namedGroup (Resolved ''admins'') 7, namedGroup (EvalFailed ''unknown variable'') 8,
        namedGroup (Resolved ''ops'') 9]\<rparr>) accepting) (Resolved ''ops'') 0
     = (Resolved ''ops'', 0)
   \<and> hostEvaluate (scenarioRunner (Inr \<lparr>Blocks =
       [namedGroup (Resolved ''admins'') 7, namedGroup (EvalFailed ''unknown variable'') 8,
        namedGroup (Resolved ''ops'') 9]\<rparr>) accepting) (Resolved ''ops'') 1
     = (Resolved ''ops'', 1)
   \<and> \<not> HasPrefix ''ops'' (prefix (self start))
   \<and> Check (scenarioRunner (Inr \<lparr>Blocks =
       [namedGroup (Resolved ''admins'') 7, namedGroup (EvalFailed ''unknown variable'') 8,
        namedGroup (Resolved ''ops'') 9]\<rparr>) accepting) start
     = (Some ''unknown variable'', \<lparr>self = NewOktaGroupNamePrefixRule, host = 1, calls =
       [LoggerDebug ''checking okta_group_name_prefix rule'',
        GetResourceContentCall ''okta_group'' [''name''],
        EvaluateExprCall (Resolved ''admins''),
        EmitIssueCall NewOktaGroupNamePrefixRule
          (''Okta group name must start with 'terraform-'' @ [CHR 0x27]) 7,
        EvaluateExprCall (EvalFailed ''unknown variable'')]\<rparr>)
   \<and> count_list (map (snd \<circ> snd) (issues (newCalls (scenarioRunner (Inr \<lparr>Blocks =
       [namedGroup (Resolved ''admins'') 7, namedGroup (EvalFailed ''unknown variable'') 8,
        namedGroup (Resolved ''ops'') 9]\<rparr>) accepting) start))) 9 = 0"
  by (simp add: scenario_defs run_defs accepting_def newCalls_def issues_def
      List.map_filter_simps)

text \<open>
  C1, as amended. Let the host answer the query with blocks
  \<open>earlier @ resource # rest\<close>, let the pass over \<open>earlier\<close> end without an error of
  the host, in state \<open>st1\<close>, and let \<open>resource\<close> have the attribute, whose expression
  the host resolves to a string that does not start with the rule's prefix. Then
  \<open>Check\<close> makes exactly two calls for this block, the evaluation and one
  \<open>EmitIssue\<close>. The issue's range is the attribute's, and its message is
  \<open>Okta group name must start with '\<close>, the rule's prefix and \<open>'\<close>. \<open>Check\<close> returns
  the emission's error if there is one and goes on with \<open>rest\<close> otherwise. For the
  rule as constructed the message is \<open>Okta group name must start with 'terraform-'\<close>.
\<close>

theorem Check_emits_one_issue_without_prefix:
  assumes answered: "hostGetResourceContent runner (resourceType (self st)) [attributeName (self st)]
        (host st) = (Inr resources, h0)"
    and blocks: "Blocks resources = earlier @ resource # rest"
    and reached: "CheckBlocks runner earlier (queried st h0) = (None, st1)"
    and present: "Attributes (Body resource) (attributeName (self st)) = Some attribute"
    and resolved: "hostEvaluate runner (Expr attribute) (host st1) = (Resolved groupName, h1)"
    and lacks: "\<not> HasPrefix groupName (prefix (self st))"
    and emission: "hostEmitIssue runner (self st)
        (''Okta group name must start with '' @ [CHR 0x27] @ prefix (self st) @ [CHR 0x27])
        (Range_hcl attribute) h1 = (res, h2)"
  shows "Check runner st =
      (let reported = st1\<lparr>host := h2, calls := calls st1 @
             [EvaluateExprCall (Expr attribute),
              EmitIssueCall (self st)
                (''Okta group name must start with '' @ [CHR 0x27] @ prefix (self st) @ [CHR 0x27])
                (Range_hcl attribute)]\<rparr>
       in case res of
            Some err \<Rightarrow> (Some err, reported)
          | None \<Rightarrow> CheckBlocks runner rest reported)
    \<and> ''Okta group name must start with '' @ [CHR 0x27] @ prefix NewOktaGroupNamePrefixRule
          @ [CHR 0x27]
        = ''Okta group name must start with 'terraform-'' @ [CHR 0x27]"
proof -
  have s1: "self st1 = self st"
    using self_CheckBlocks [of runner earlier "queried st h0"] reached by (simp add: queried_def)
  have emitted: "hostEmitIssue runner (self st) (issueMsg (prefix (self st)))
        (Range_hcl attribute) h1 = (res, h2)"
    using emission by (simp add: issueMsg_def)
  let ?e = "st1\<lparr>host := h1, calls := calls st1 @ [EvaluateExprCall (Expr attribute)]\<rparr>"
  have "EvaluateExpr runner (Expr attribute) (checkGroupName runner attribute) st1
      = checkGroupName runner attribute groupName ?e"
    using resolved by (rule evaluate_resolved)
  also have "\<dots> = (res, ?e\<lparr>host := h2, calls := calls ?e @
      [EmitIssueCall (self ?e) (issueMsg (prefix (self ?e))) (Range_hcl attribute)]\<rparr>)"
    using lacks emitted s1 by (intro checkGroupName_without_prefix) simp_all
  finally have step: "EvaluateExpr runner (Expr attribute) (checkGroupName runner attribute) st1
      = (res, st1\<lparr>host := h2, calls := calls st1 @
             [EvaluateExprCall (Expr attribute),
              EmitIssueCall (self st) (issueMsg (prefix (self st))) (Range_hcl attribute)]\<rparr>)"
    using s1 by simp
  have "Check runner st = CheckBlocks runner (earlier @ resource # rest) (queried st h0)"
    using Check_answered [OF answered] blocks by simp
  also have "\<dots> = CheckBlocks runner (resource # rest) st1"
    using reached by (simp add: CheckBlocks_append)
  finally have "Check runner st = CheckBlocks runner (resource # rest) st1" .
  then have "Check runner st =
      (let reported = st1\<lparr>host := h2, calls := calls st1 @
             [EvaluateExprCall (Expr attribute),
              EmitIssueCall (self st) (issueMsg (prefix (self st))) (Range_hcl attribute)]\<rparr>
       in case res of
            Some err \<Rightarrow> (Some err, reported)
          | None \<Rightarrow> CheckBlocks runner rest reported)"
    using present s1 step by (cases res) simp_all
  then show ?thesis
    by (simp add: issueMsg_def NewOktaGroupNamePrefixRule_def)
qed

text \<open>
  A run on three blocks: a name with the prefix, a name without it, no name.
\<close>

theorem Check_emits_one_issue_without_prefix_witness:
  "Check (scenarioRunner (Inr \<lparr>Blocks =
       [namedGroup (Resolved ''terraform-admins'') 3, namedGroup (Resolved ''admins'') 7,
        unnamedGroup]\<rparr>) (\<lambda>n. None)) start
   = (None, \<lparr>self = NewOktaGroupNamePrefixRule, host = 1, calls =
       [LoggerDebug ''checking okta_group_name_prefix rule'',
        GetResourceContentCall ''okta_group'' [''name''],
        EvaluateExprCall (Resolved ''terraform-admins''),
        EvaluateExprCall (Resolved ''admins''),
        EmitIssueCall NewOktaGroupNamePrefixRule
          (''Okta group name must start with 'terraform-'' @ [CHR 0x27]) 7]\<rparr>)"
proof -
  let ?bs = "\<lparr>Blocks =
       [namedGroup (Resolved ''terraform-admins'') 3, namedGroup (Resolved ''admins'') 7,
        unnamedGroup :: (string Evaluation, nat) Block]\<rparr>"
  let ?rn = "scenarioRunner (Inr ?bs) (\<lambda>n. None)"
  let ?st1 = "(queried start 0)\<lparr>calls := calls (queried start 0)
        @ [EvaluateExprCall (Resolved ''terraform-admins'')]\<rparr>"
  have a: "hostGetResourceContent ?rn (resourceType (self start)) [attributeName (self start)]
        (host start) = (Inr ?bs, 0)"
    by (simp add: scenario_defs)
  have b: "Blocks ?bs = [namedGroup (Resolved ''terraform-admins'') 3]
      @ namedGroup (Resolved ''admins'') 7 # [unnamedGroup]"
    by simp
  have c: "CheckBlocks ?rn [namedGroup (Resolved ''terraform-admins'') 3] (queried start 0)
      = (None, ?st1)"
    by (simp add: scenario_defs run_defs)
  have d: "Attributes (Body (namedGroup (Resolved ''admins'') 7)) (attributeName (self start))
      = Some \<lparr>Expr = Resolved ''admins'', Range_hcl = 7\<rparr>"
    by (simp add: scenario_defs)
  have e: "hostEvaluate ?rn (Expr \<lparr>Expr = Resolved ''admins'', Range_hcl = 7::nat\<rparr>) (host ?st1)
      = (Resolved ''admins'', 0)"
    by (simp add: scenario_defs)
  have f: "\<not> HasPrefix ''admins'' (prefix (self start))"
    by (simp add: scenario_defs)
  have g: "hostEmitIssue ?rn (self start)
        (''Okta group name must start with '' @ [CHR 0x27] @ prefix (self start) @ [CHR 0x27])
        (Range_hcl \<lparr>Expr = Resolved ''admins'', Range_hcl = 7::nat\<rparr>) 0 = (None, 1)"
    by (simp add: scenario_defs)
  show ?thesis
    using Check_emits_one_issue_without_prefix [OF a b c d e f g] by (simp add: scenario_defs)
qed

text \<open>
  C2. A block without the attribute is skipped: wherever it stands among the blocks
  the host returned, \<open>Check\<close> does what it does on the blocks without it. The result,
  the host's state and the calls are the same, so no expression is evaluated, no issue
  is emitted and no error is returned for the block, and the blocks after it are
  processed.
\<close>

theorem Check_skips_block_without_attribute:
  assumes answered: "hostGetResourceContent runner (resourceType (self st)) [attributeName (self st)]
        (host st) = (Inr resources, h0)"
    and blocks: "Blocks resources = earlier @ resource # rest"
    and absent: "Attributes (Body resource) (attributeName (self st)) = None"
  shows "Check runner st = CheckBlocks runner (earlier @ rest) (queried st h0)"
proof -
  obtain r st1 where run: "CheckBlocks runner earlier (queried st h0) = (r, st1)"
    by (cases "CheckBlocks runner earlier (queried st h0)")
  have "self st1 = self st"
    using self_CheckBlocks [of runner earlier "queried st h0"] run by (simp add: queried_def)
  then have step: "CheckBlocks runner (resource # rest) st1 = CheckBlocks runner rest st1"
    using absent by simp
  have "CheckBlocks runner (earlier @ resource # rest) (queried st h0)
      = CheckBlocks runner (earlier @ rest) (queried st h0)"
    using run step by (cases r) (simp_all add: CheckBlocks_append del: CheckBlocks.simps)
  then show ?thesis using Check_answered [OF answered] blocks by simp
qed

text \<open>
  A run with a block without a name between two named ones, and a run on that block alone.
\<close>

theorem Check_skips_block_without_attribute_witness:
  "Check (scenarioRunner (Inr \<lparr>Blocks =
       [namedGroup (Resolved ''admins'') 7, unnamedGroup,
        namedGroup (Resolved ''terraform-admins'') 3]\<rparr>) (\<lambda>n. None)) start
   = (None, \<lparr>self = NewOktaGroupNamePrefixRule, host = 1, calls =
       [LoggerDebug ''checking okta_group_name_prefix rule'',
        GetResourceContentCall ''okta_group'' [''name''],
        EvaluateExprCall (Resolved ''admins''),
        EmitIssueCall NewOktaGroupNamePrefixRule
          (''Okta group name must start with 'terraform-'' @ [CHR 0x27]) 7,
        EvaluateExprCall (Resolved ''terraform-admins'')]\<rparr>)
   \<and> Check (scenarioRunner (Inr \<lparr>Blocks = [unnamedGroup]\<rparr>) (\<lambda>n. None)) start
   = (None, \<lparr>self = NewOktaGroupNamePrefixRule, host = 0, calls =
       [LoggerDebug ''checking okta_group_name_prefix rule'',
        GetResourceContentCall ''okta_group'' [''name'']]\<rparr>)"
proof -
  let ?bs = "\<lparr>Blocks =
       [namedGroup (Resolved ''admins'') 7, unnamedGroup,
        namedGroup (Resolved ''terraform-admins'') (3::nat)]\<rparr>"
  let ?rn = "scenarioRunner (Inr ?bs) (\<lambda>n. None)"
  have a: "hostGetResourceContent ?rn (resourceType (self start)) [attributeName (self start)]
        (host start) = (Inr ?bs, 0)"
    by (simp add: scenario_defs)
  have b: "Blocks ?bs = [namedGroup (Resolved ''admins'') 7]
      @ unnamedGroup # [namedGroup (Resolved ''terraform-admins'') 3]"
    by simp
  have c: "Attributes (Body (unnamedGroup :: (string Evaluation, nat) Block))
      (attributeName (self start)) = None"
    by (simp add: scenario_defs)
  let ?cs = "\<lparr>Blocks = [unnamedGroup :: (string Evaluation, nat) Block]\<rparr>"
  let ?rm = "scenarioRunner (Inr ?cs) (\<lambda>n. None)"
  have a': "hostGetResourceContent ?rm (resourceType (self start)) [attributeName (self start)]
        (host start) = (Inr ?cs, 0)"
    by (simp add: scenario_defs)
  have b': "Blocks ?cs = [] @ unnamedGroup # []"
    by simp
  show ?thesis
    using Check_skips_block_without_attribute [OF a b c] Check_skips_block_without_attribute [OF a' b' c]
    by (simp add: scenario_defs EvaluateExpr_def checkGroupName_def EmitIssue_def)
qed

text \<open>
  C3. In the setting of C1, when the resolved string starts with the prefix (byte for
  byte: it is the prefix followed by some string), the evaluation is the only call
  \<open>Check\<close> makes for the block, and it goes on with \<open>rest\<close>.
\<close>

theorem Check_emits_nothing_with_prefix:
  assumes answered: "hostGetResourceContent runner (resourceType (self st)) [attributeName (self st)]
        (host st) = (Inr resources, h0)"
    and blocks: "Blocks resources = earlier @ resource # rest"
    and reached: "CheckBlocks runner earlier (queried st h0) = (None, st1)"
    and present: "Attributes (Body resource) (attributeName (self st)) = Some attribute"
    and resolved: "hostEvaluate runner (Expr attribute) (host st1) = (Resolved groupName, h1)"
    and has: "HasPrefix groupName (prefix (self st))"
  shows "Check runner st =
      CheckBlocks runner rest
        (st1\<lparr>host := h1, calls := calls st1 @ [EvaluateExprCall (Expr attribute)]\<rparr>)
    \<and> (\<exists>t. groupName = prefix (self st) @ t)"
proof -
  have s1: "self st1 = self st"
    using self_CheckBlocks [of runner earlier "queried st h0"] reached by (simp add: queried_def)
  let ?e = "st1\<lparr>host := h1, calls := calls st1 @ [EvaluateExprCall (Expr attribute)]\<rparr>"
  have "EvaluateExpr runner (Expr attribute) (checkGroupName runner attribute) st1
      = checkGroupName runner attribute groupName ?e"
    using resolved by (rule evaluate_resolved)
  also have "\<dots> = (None, ?e)"
    using has s1 by (simp add: checkGroupName_with_prefix)
  finally have step: "EvaluateExpr runner (Expr attribute) (checkGroupName runner attribute) st1
      = (None, ?e)" .
  have "Check runner st = CheckBlocks runner (earlier @ resource # rest) (queried st h0)"
    using Check_answered [OF answered] blocks by simp
  also have "\<dots> = CheckBlocks runner (resource # rest) st1"
    using reached by (simp add: CheckBlocks_append)
  also have "\<dots> = CheckBlocks runner rest ?e"
    using present s1 step by simp
  finally show ?thesis using has by (simp add: HasPrefix_iff)
qed

text \<open>
  A run in which the second and the third name have the prefix; the first differs from it in the case of one letter.
\<close>

theorem Check_emits_nothing_with_prefix_witness:
  "Check (scenarioRunner (Inr \<lparr>Blocks =
       [namedGroup (Resolved ''Terraform-ops'') 2, namedGroup (Resolved ''terraform-admins'') 3,
        namedGroup (Resolved ''terraform-'') 9]\<rparr>) (\<lambda>n. None)) start
   = (None, \<lparr>self = NewOktaGroupNamePrefixRule, host = 1, calls =
       [LoggerDebug ''checking okta_group_name_prefix rule'',
        GetResourceContentCall ''okta_group'' [''name''],
        EvaluateExprCall (Resolved ''Terraform-ops''),
        EmitIssueCall NewOktaGroupNamePrefixRule
          (''Okta group name must start with 'terraform-'' @ [CHR 0x27]) 2,
        EvaluateExprCall (Resolved ''terraform-admins''),
        EvaluateExprCall (Resolved ''terraform-'')]\<rparr>)"
proof -
  let ?bs = "\<lparr>Blocks =
       [namedGroup (Resolved ''Terraform-ops'') 2, namedGroup (Resolved ''terraform-admins'') 3,
        namedGroup (Resolved ''terraform-'') (9::nat)]\<rparr>"
  let ?rn = "scenarioRunner (Inr ?bs) (\<lambda>n. None)"
  let ?st1 = "(queried start 1)\<lparr>calls := calls (queried start 1)
        @ [EvaluateExprCall (Resolved ''Terraform-ops''),
           EmitIssueCall NewOktaGroupNamePrefixRule
             (''Okta group name must start with 'terraform-'' @ [CHR 0x27]) 2]\<rparr>"
  have a: "hostGetResourceContent ?rn (resourceType (self start)) [attributeName (self start)]
        (host start) = (Inr ?bs, 0)"
    by (simp add: scenario_defs)
  have b: "Blocks ?bs = [namedGroup (Resolved ''Terraform-ops'') 2]
      @ namedGroup (Resolved ''terraform-admins'') 3 # [namedGroup (Resolved ''terraform-'') 9]"
    by simp
  have c: "CheckBlocks ?rn [namedGroup (Resolved ''Terraform-ops'') 2] (queried start 0)
      = (None, ?st1)"
    by (simp add: scenario_defs run_defs)
  have d: "Attributes (Body (namedGroup (Resolved ''terraform-admins'') 3))
      (attributeName (self start))
      = Some \<lparr>Expr = Resolved ''terraform-admins'', Range_hcl = 3\<rparr>"
    by (simp add: scenario_defs)
  have e: "hostEvaluate ?rn (Expr \<lparr>Expr = Resolved ''terraform-admins'', Range_hcl = 3::nat\<rparr>)
      (host ?st1) = (Resolved ''terraform-admins'', 1)"
    by (simp add: scenario_defs)
  have f: "HasPrefix ''terraform-admins'' (prefix (self start))"
    by (simp add: scenario_defs)
  show ?thesis
    using Check_emits_nothing_with_prefix [OF a b c d e f] by (simp add: scenario_defs run_defs)
qed

text \<open>
  C4. When the pass reaches a block with the attribute and the host fails to evaluate
  its expression, or resolves it to a string without the prefix and then refuses the
  issue, \<open>Check\<close> returns the host's error as it is, and the failed call is the last
  call it makes: the blocks in \<open>rest\<close> are not looked at. The calls made for the
  earlier blocks, their issues among them, stay as they were.
\<close>

theorem Check_stops_at_first_host_error:
  assumes answered: "hostGetResourceContent runner (resourceType (self st)) [attributeName (self st)]
        (host st) = (Inr resources, h0)"
    and blocks: "Blocks resources = earlier @ resource # rest"
    and reached: "CheckBlocks runner earlier (queried st h0) = (None, st1)"
    and present: "Attributes (Body resource) (attributeName (self st)) = Some attribute"
  shows "(hostEvaluate runner (Expr attribute) (host st1) = (EvalFailed err, h1) \<longrightarrow>
       Check runner st =
         (Some err, st1\<lparr>host := h1, calls := calls st1 @ [EvaluateExprCall (Expr attribute)]\<rparr>))
    \<and> (hostEvaluate runner (Expr attribute) (host st1) = (Resolved groupName, h1)
         \<and> \<not> HasPrefix groupName (prefix (self st))
         \<and> hostEmitIssue runner (self st) (issueMsg (prefix (self st)))
              (Range_hcl attribute) h1 = (Some err, h2) \<longrightarrow>
       Check runner st =
         (Some err, st1\<lparr>host := h2, calls := calls st1 @
            [EvaluateExprCall (Expr attribute),
             EmitIssueCall (self st) (issueMsg (prefix (self st))) (Range_hcl attribute)]\<rparr>))
    \<and> (\<exists>cs. calls st1 = calls st @ cs)"
proof -
  have s1: "self st1 = self st"
    using self_CheckBlocks [of runner earlier "queried st h0"] reached by (simp add: queried_def)
  have "Check runner st = CheckBlocks runner (earlier @ resource # rest) (queried st h0)"
    using Check_answered [OF answered] blocks by simp
  also have "\<dots> = CheckBlocks runner (resource # rest) st1"
    using reached by (simp add: CheckBlocks_append)
  finally have run: "Check runner st = CheckBlocks runner (resource # rest) st1" .
  have evaluation: "Check runner st =
         (Some err, st1\<lparr>host := h1, calls := calls st1 @ [EvaluateExprCall (Expr attribute)]\<rparr>)"
    if "hostEvaluate runner (Expr attribute) (host st1) = (EvalFailed err, h1)"
    using run present s1 evaluate_failed [OF that] by simp
  have emission: "Check runner st =
         (Some err, st1\<lparr>host := h2, calls := calls st1 @
            [EvaluateExprCall (Expr attribute),
             EmitIssueCall (self st) (issueMsg (prefix (self st))) (Range_hcl attribute)]\<rparr>)"
    if resolved: "hostEvaluate runner (Expr attribute) (host st1) = (Resolved groupName, h1)"
      and lacks: "\<not> HasPrefix groupName (prefix (self st))"
      and refused: "hostEmitIssue runner (self st) (issueMsg (prefix (self st)))
              (Range_hcl attribute) h1 = (Some err, h2)"
  proof -
    let ?e = "st1\<lparr>host := h1, calls := calls st1 @ [EvaluateExprCall (Expr attribute)]\<rparr>"
    have "EvaluateExpr runner (Expr attribute) (checkGroupName runner attribute) st1
        = checkGroupName runner attribute groupName ?e"
      using resolved by (rule evaluate_resolved)
    also have "\<dots> = (Some err, ?e\<lparr>host := h2, calls := calls ?e @
        [EmitIssueCall (self ?e) (issueMsg (prefix (self ?e))) (Range_hcl attribute)]\<rparr>)"
      using lacks refused s1 by (intro checkGroupName_without_prefix) simp_all
    finally show ?thesis using run present s1 by simp
  qed
  have "\<exists>ds. calls (snd (CheckBlocks runner earlier (queried st h0))) = calls (queried st h0) @ ds"
    using calls_CheckBlocks [of runner earlier "queried st h0"] by blast
  then have kept: "\<exists>cs. calls st1 = calls st @ cs"
    using reached by (auto simp: queried_def)
  show ?thesis using evaluation emission kept by blast
qed

text \<open>
  Two runs that stop at the second of three blocks: the host fails to evaluate it, or refuses its issue.
\<close>

theorem Check_stops_at_first_host_error_witness:
  "Check (scenarioRunner (Inr \<lparr>Blocks =
       [namedGroup (Resolved ''admins'') 7, namedGroup (EvalFailed ''unknown variable'') 8,
        namedGroup (Resolved ''ops'') 9]\<rparr>) (\<lambda>n. None)) start
   = (Some ''unknown variable'', \<lparr>self = NewOktaGroupNamePrefixRule, host = 1, calls =
       [LoggerDebug ''checking okta_group_name_prefix rule'',
        GetResourceContentCall ''okta_group'' [''name''],
        EvaluateExprCall (Resolved ''admins''),
        EmitIssueCall NewOktaGroupNamePrefixRule
          (''Okta group name must start with 'terraform-'' @ [CHR 0x27]) 7,
        EvaluateExprCall (EvalFailed ''unknown variable'')]\<rparr>)
   \<and> Check (scenarioRunner (Inr \<lparr>Blocks =
       [namedGroup (Resolved ''admins'') 7, namedGroup (Resolved ''devs'') 8,
        namedGroup (Resolved ''ops'') 9]\<rparr>)
         (\<lambda>n. if n < 1 then None else Some ''issue limit reached'')) start
   = (Some ''issue limit reached'', \<lparr>self = NewOktaGroupNamePrefixRule, host = 2, calls =
       [LoggerDebug ''checking okta_group_name_prefix rule'',
        GetResourceContentCall ''okta_group'' [''name''],
        EvaluateExprCall (Resolved ''admins''),
        EmitIssueCall NewOktaGroupNamePrefixRule
          (''Okta group name must start with 'terraform-'' @ [CHR 0x27]) 7,
        EvaluateExprCall (Resolved ''devs''),
        EmitIssueCall NewOktaGroupNamePrefixRule
          (''Okta group name must start with 'terraform-'' @ [CHR 0x27]) 8]\<rparr>)"
proof -
  let ?st1 = "(queried start 1)\<lparr>calls := calls (queried start 1)
        @ [EvaluateExprCall (Resolved ''admins''),
           EmitIssueCall NewOktaGroupNamePrefixRule
             (''Okta group name must start with 'terraform-'' @ [CHR 0x27]) 7]\<rparr>"
  let ?bs = "\<lparr>Blocks =
       [namedGroup (Resolved ''admins'') 7, namedGroup (EvalFailed ''unknown variable'') 8,
        namedGroup (Resolved ''ops'') (9::nat)]\<rparr>"
  let ?rn = "scenarioRunner (Inr ?bs) (\<lambda>n. None)"
  have a: "hostGetResourceContent ?rn (resourceType (self start)) [attributeName (self start)]
        (host start) = (Inr ?bs, 0)"
    by (simp add: scenario_defs)
  have b: "Blocks ?bs = [namedGroup (Resolved ''admins'') 7]
      @ namedGroup (EvalFailed ''unknown variable'') 8 # [namedGroup (Resolved ''ops'') 9]"
    by simp
  have c: "CheckBlocks ?rn [namedGroup (Resolved ''admins'') 7] (queried start 0) = (None, ?st1)"
    by (simp add: scenario_defs run_defs)
  have d: "Attributes (Body (namedGroup (EvalFailed ''unknown variable'') 8))
      (attributeName (self start))
      = Some \<lparr>Expr = EvalFailed ''unknown variable'', Range_hcl = 8\<rparr>"
    by (simp add: scenario_defs)
  have e: "hostEvaluate ?rn (Expr \<lparr>Expr = EvalFailed ''unknown variable'', Range_hcl = 8::nat\<rparr>)
      (host ?st1) = (EvalFailed ''unknown variable'', 1)"
    by (simp add: scenario_defs)
  let ?cs = "\<lparr>Blocks =
       [namedGroup (Resolved ''admins'') 7, namedGroup (Resolved ''devs'') 8,
        namedGroup (Resolved ''ops'') (9::nat)]\<rparr>"
  let ?rm = "scenarioRunner (Inr ?cs) (\<lambda>n. if n < 1 then None else Some ''issue limit reached'')"
  have a': "hostGetResourceContent ?rm (resourceType (self start)) [attributeName (self start)]
        (host start) = (Inr ?cs, 0)"
    by (simp add: scenario_defs)
  have b': "Blocks ?cs = [namedGroup (Resolved ''admins'') 7]
      @ namedGroup (Resolved ''devs'') 8 # [namedGroup (Resolved ''ops'') 9]"
    by simp
  have c': "CheckBlocks ?rm [namedGroup (Resolved ''admins'') 7] (queried start 0) = (None, ?st1)"
    by (simp add: scenario_defs run_defs)
  have d': "Attributes (Body (namedGroup (Resolved ''devs'') 8)) (attributeName (self start))
      = Some \<lparr>Expr = Resolved ''devs'', Range_hcl = 8\<rparr>"
    by (simp add: scenario_defs)
  have e': "hostEvaluate ?rm (Expr \<lparr>Expr = Resolved ''devs'', Range_hcl = 8::nat\<rparr>)
      (host ?st1) = (Resolved ''devs'', 1)
    \<and> \<not> HasPrefix ''devs'' (prefix (self start))
    \<and> hostEmitIssue ?rm (self start) (issueMsg (prefix (self start)))
        (Range_hcl \<lparr>Expr = Resolved ''devs'', Range_hcl = 8::nat\<rparr>) 1
        = (Some ''issue limit reached'', 2)"
    by (simp add: scenario_defs)
  have "Check ?rn start = (Some ''unknown variable'',
      ?st1\<lparr>host := 1, calls := calls ?st1 @ [EvaluateExprCall (EvalFailed ''unknown variable'')]\<rparr>)"
    using Check_stops_at_first_host_error [OF a b c d, of "''unknown variable''" 1] e by simp
  moreover have "Check ?rm start = (Some ''issue limit reached'',
      ?st1\<lparr>host := 2, calls := calls ?st1 @ [EvaluateExprCall (Resolved ''devs''),
         EmitIssueCall (self start) (issueMsg (prefix (self start))) 8]\<rparr>)"
    using Check_stops_at_first_host_error [OF a' b' c' d', of "''issue limit reached''" 1 "''devs''" 2] e' by simp
  ultimately show ?thesis by (simp add: scenario_defs)
qed

text \<open>
  C5. When the host refuses the query, \<open>Check\<close> returns the host's error as it is.
  Its calls are the line of the debug log and the one query, for the rule's resource
  type and attribute: no second query, no evaluation, no issue.
\<close>

theorem Check_returns_query_error:
  assumes refused: "hostGetResourceContent runner (resourceType (self st)) [attributeName (self st)]
        (host st) = (Inl err, h0)"
  shows "Check runner st =
      (Some err, st\<lparr>host := h0, calls := calls st @
         [LoggerDebug (debugMsg (Name (self st))),
          GetResourceContentCall (resourceType (self st)) [attributeName (self st)]]\<rparr>)"
  using refused by (simp add: Check_def Debug_def GetResourceContent_def)

text \<open>
  A run against a host that refuses the query.
\<close>

theorem Check_returns_query_error_witness:
  "Check (scenarioRunner (Inl ''schema rejected'') (\<lambda>n. None)) start
   = (Some ''schema rejected'', \<lparr>self = NewOktaGroupNamePrefixRule, host = 0, calls =
       [LoggerDebug ''checking okta_group_name_prefix rule'',
        GetResourceContentCall ''okta_group'' [''name'']]\<rparr>)"
proof -
  let ?rn = "scenarioRunner (Inl ''schema rejected'') (\<lambda>n. None)"
  have a: "hostGetResourceContent ?rn (resourceType (self start)) [attributeName (self start)]
        (host start) = (Inl ''schema rejected'', 0)"
    by (simp add: scenario_defs)
  show ?thesis using Check_returns_query_error [OF a] by (simp add: scenario_defs)
qed

text \<open>
  C6. With a host whose responses are fixed, a second run of \<open>Check\<close> right after a
  first one returns the same result and makes the same calls again, so the calls
  after both runs are those before, then the calls of one run twice. More generally
  the result and the issues of a run are the same from every state that holds the same
  rule, whatever was called before and whatever state the host is in.
\<close>

theorem Check_twice_same_issues:
  assumes fixed: "fixedResponses runner"
  shows "fst (Check runner (snd (Check runner st))) = fst (Check runner st)
    \<and> newCalls runner (snd (Check runner st)) = newCalls runner st
    \<and> calls (snd (Check runner (snd (Check runner st))))
        = calls st @ newCalls runner st @ newCalls runner st
    \<and> (\<forall>st'. self st' = self st \<longrightarrow>
          fst (Check runner st') = fst (Check runner st)
        \<and> issues (newCalls runner st') = issues (newCalls runner st))"
proof -
  have again: "fst (Check runner (snd (Check runner st))) = fst (Check runner st)
      \<and> newCalls runner (snd (Check runner st)) = newCalls runner st"
    using fixed self_Check by (rule fixed_Check)
  have "calls (snd (Check runner (snd (Check runner st))))
      = calls (snd (Check runner st)) @ newCalls runner (snd (Check runner st))"
    by (rule newCalls_Check)
  then have "calls (snd (Check runner (snd (Check runner st))))
        = calls st @ newCalls runner st @ newCalls runner st"
    using again newCalls_Check [of runner st] by simp
  moreover have "fst (Check runner st') = fst (Check runner st)
        \<and> issues (newCalls runner st') = issues (newCalls runner st)"
    if "self st' = self st" for st'
    using fixed_Check [OF fixed that] by simp
  ultimately show ?thesis using again by blast
qed

text \<open>
  Two runs, one after the other, against a host that accepts every issue.
\<close>

theorem Check_twice_same_issues_witness:
  "fixedResponses (scenarioRunner (Inr \<lparr>Blocks =
       [namedGroup (Resolved ''admins'') 7, namedGroup (Resolved ''terraform-admins'') 3]\<rparr>)
       (\<lambda>n. None))
   \<and> calls (snd (Check (scenarioRunner (Inr \<lparr>Blocks =
       [namedGroup (Resolved ''admins'') 7, namedGroup (Resolved ''terraform-admins'') 3]\<rparr>)
       (\<lambda>n. None))
      (snd (Check (scenarioRunner (Inr \<lparr>Blocks =
       [namedGroup (Resolved ''admins'') 7, namedGroup (Resolved ''terraform-admins'') 3]\<rparr>)
       (\<lambda>n. None)) start))))
   = [LoggerDebug ''checking okta_group_name_prefix rule'',
      GetResourceContentCall ''okta_group'' [''name''],
      EvaluateExprCall (Resolved ''admins''),
      EmitIssueCall NewOktaGroupNamePrefixRule
        (''Okta group name must start with 'terraform-'' @ [CHR 0x27]) 7,
      EvaluateExprCall (Resolved ''terraform-admins''),
      LoggerDebug ''checking okta_group_name_prefix rule'',
      GetResourceContentCall ''okta_group'' [''name''],
      EvaluateExprCall (Resolved ''admins''),
      EmitIssueCall NewOktaGroupNamePrefixRule
        (''Okta group name must start with 'terraform-'' @ [CHR 0x27]) 7,
      EvaluateExprCall (Resolved ''terraform-admins'')]"
proof -
  let ?rn = "scenarioRunner (Inr \<lparr>Blocks =
       [namedGroup (Resolved ''admins'') 7, namedGroup (Resolved ''terraform-admins'') (3::nat)]\<rparr>)
       (\<lambda>n. None)"
  have fixed: "fixedResponses ?rn"
    by (simp add: fixedResponses_def scenarioRunner_def)
  have new: "newCalls ?rn start =
     [LoggerDebug ''checking okta_group_name_prefix rule'',
      GetResourceContentCall ''okta_group'' [''name''],
      EvaluateExprCall (Resolved ''admins''),
      EmitIssueCall NewOktaGroupNamePrefixRule
        (''Okta group name must start with 'terraform-'' @ [CHR 0x27]) 7,
      EvaluateExprCall (Resolved ''terraform-admins'')]"
    by (simp add: newCalls_def scenario_defs run_defs)
  have "calls (snd (Check ?rn (snd (Check ?rn start))))
      = calls start @ newCalls ?rn start @ newCalls ?rn start"
    using Check_twice_same_issues [OF fixed, of start] by blast
  then show ?thesis using fixed new by (simp add: start_def)
qed

text \<open>
  C7. When the rule's prefix is the empty string, \<open>HasPrefix\<close> holds for every string
  and a run of \<open>Check\<close> emits no issue, whatever the host answers.
\<close>

theorem Check_empty_prefix_no_issue:
  assumes empty: "prefix (self st) = []"
  shows "HasPrefix groupName (prefix (self st)) \<and> issues (newCalls runner st) = []"
proof -
  obtain cs where "calls (snd (Check runner st)) = calls st @ cs"
    and "prefix (self st) = [] \<longrightarrow> issues cs = []"
    using calls_Check [of runner st] by blast
  then have "issues (newCalls runner st) = []"
    using empty by (simp add: newCalls_def)
  then show ?thesis using empty by (simp add: HasPrefix_empty)
qed

text \<open>
  A run of a rule with the empty prefix.
\<close>

theorem Check_empty_prefix_no_issue_witness:
  "HasPrefix ''admins'' []
   \<and> issues (newCalls (scenarioRunner (Inr \<lparr>Blocks =
         [namedGroup (Resolved ''admins'') 7, namedGroup (Resolved []) 8, unnamedGroup]\<rparr>)
         (\<lambda>n. None))
       \<lparr>self = NewOktaGroupNamePrefixRule\<lparr>prefix := []\<rparr>, host = 0, calls = []\<rparr>) = []
   \<and> newCalls (scenarioRunner (Inr \<lparr>Blocks =
         [namedGroup (Resolved ''admins'') 7, namedGroup (Resolved []) 8, unnamedGroup]\<rparr>)
         (\<lambda>n. None))
       \<lparr>self = NewOktaGroupNamePrefixRule\<lparr>prefix := []\<rparr>, host = 0, calls = []\<rparr>
     = [LoggerDebug ''checking okta_group_name_prefix rule'',
        GetResourceContentCall ''okta_group'' [''name''],
        EvaluateExprCall (Resolved ''admins''),
        EvaluateExprCall (Resolved [])]"
proof -
  let ?st = "\<lparr>self = NewOktaGroupNamePrefixRule\<lparr>prefix := []\<rparr>, host = 0::nat,
      calls = [] :: (string Evaluation, nat) Call list\<rparr>"
  let ?rn = "scenarioRunner (Inr \<lparr>Blocks =
         [namedGroup (Resolved ''admins'') 7, namedGroup (Resolved []) 8, unnamedGroup]\<rparr>)
         (\<lambda>n. None)"
  have empty: "prefix (self ?st) = []" by simp
  have run: "newCalls ?rn ?st
     = [LoggerDebug ''checking okta_group_name_prefix rule'',
        GetResourceContentCall ''okta_group'' [''name''],
        EvaluateExprCall (Resolved ''admins''),
        EvaluateExprCall (Resolved [])]"
    by (simp add: newCalls_def scenario_defs run_defs)
  show ?thesis
    using Check_empty_prefix_no_issue [OF empty, of "''admins''" ?rn] run by simp
qed

text \<open>
  C8. The fields of the rule as constructed, none of them empty, and the accessors:
  functions of the rule alone, with the same value for every rule.
\<close>

theorem NewOktaGroupNamePrefixRule_fields:
  "resourceType NewOktaGroupNamePrefixRule = ''okta_group''
   \<and> attributeName NewOktaGroupNamePrefixRule = ''name''
   \<and> prefix NewOktaGroupNamePrefixRule = ''terraform-''
   \<and> resourceType NewOktaGroupNamePrefixRule \<noteq> []
   \<and> attributeName NewOktaGroupNamePrefixRule \<noteq> []
   \<and> prefix NewOktaGroupNamePrefixRule \<noteq> []
   \<and> Name r = ''okta_group_name_prefix''
   \<and> Name r \<noteq> []
   \<and> Enabled r = True
   \<and> Severity r = ERROR"
  by (simp add: NewOktaGroupNamePrefixRule_def Name_def Enabled_def Severity_def)

text \<open>
  C9. \<open>Severity\<close> returns \<open>ERROR\<close> for every rule value, and every issue a run of
  \<open>Check\<close> emits is handed to the host with the receiver as its rule, whose severity
  is \<open>ERROR\<close>.
\<close>

theorem Severity_is_ERROR:
  "Severity r = ERROR
   \<and> (\<forall>i \<in> set (issues (newCalls runner st)). fst i = self st \<and> Severity (fst i) = ERROR)"
proof -
  obtain cs where "calls (snd (Check runner st)) = calls st @ cs"
    and "\<forall>i \<in> set (issues cs). fst i = self st \<and> fst (snd i) = issueMsg (prefix (self st))"
    using calls_Check [of runner st] by blast
  then have "\<forall>i \<in> set (issues (newCalls runner st)). fst i = self st"
    by (simp add: newCalls_def)
  then show ?thesis by (simp add: Severity_def)
qed

text \<open>
  The one issue of a run on a name without and a name with the prefix.
\<close>

theorem Severity_is_ERROR_witness:
  "issues (newCalls (scenarioRunner (Inr \<lparr>Blocks =
         [namedGroup (Resolved ''admins'') 7, namedGroup (Resolved ''terraform-admins'') 3]\<rparr>)
         (\<lambda>n. None)) start)
     = [(NewOktaGroupNamePrefixRule,
         ''Okta group name must start with 'terraform-'' @ [CHR 0x27], 7)]
   \<and> Severity (fst (NewOktaGroupNamePrefixRule,
         ''Okta group name must start with 'terraform-'' @ [CHR 0x27], 7::nat)) = ERROR"
proof -
  let ?rn = "scenarioRunner (Inr \<lparr>Blocks =
       [namedGroup (Resolved ''admins'') 7, namedGroup (Resolved ''terraform-admins'') (3::nat)]\<rparr>)
       (\<lambda>n. None)"
  have found: "issues (newCalls ?rn start)
     = [(NewOktaGroupNamePrefixRule,
         ''Okta group name must start with 'terraform-'' @ [CHR 0x27], 7)]"
    by (simp add: newCalls_def issues_def List.map_filter_simps scenario_defs run_defs)
  show ?thesis
    using Severity_is_ERROR [of NewOktaGroupNamePrefixRule ?rn start] found by simp
qed

text \<open>
  C10. \<open>Check\<close> leaves the receiver as it was, whatever the host does and whatever
  \<open>Check\<close> returns; so do \<open>n\<close> runs one after another, and the fields and the
  accessors' values after them are those before.
\<close>

theorem Check_keeps_rule:
  "self (snd (Check runner st)) = self st
   \<and> self (((\<lambda>s. snd (Check runner s)) ^^ n) st) = self st
   \<and> resourceType (self (((\<lambda>s. snd (Check runner s)) ^^ n) st)) = resourceType (self st)
   \<and> attributeName (self (((\<lambda>s. snd (Check runner s)) ^^ n) st)) = attributeName (self st)
   \<and> prefix (self (((\<lambda>s. snd (Check runner s)) ^^ n) st)) = prefix (self st)
   \<and> Name (self (((\<lambda>s. snd (Check runner s)) ^^ n) st)) = Name (self st)
   \<and> Enabled (self (((\<lambda>s. snd (Check runner s)) ^^ n) st)) = Enabled (self st)
   \<and> Severity (self (((\<lambda>s. snd (Check runner s)) ^^ n) st)) = Severity (self st)"
proof -
  have "self (((\<lambda>s. snd (Check runner s)) ^^ n) st) = self st"
    by (induction n) (simp_all add: self_Check)
  then show ?thesis by (simp add: self_Check)
qed

end
